theory Spec2Isabelle
  imports Complex_Main
begin

section \<open>Text and the interpreter environment\<close>

text \<open>
  A Python \<open>str\<close> is a sequence of Unicode code points; \<open>len\<close> counts code points.
  The engine of \<open>backend/src/utils/sanitizer.py\<close> is modelled over lists of code points.
  \<open>str\<close> turns an ASCII literal into such a list.
\<close>

type_synonym pystr = "nat list"

definition str :: "string \<Rightarrow> pystr" where
  "str s = map of_char s"

text \<open>
  The engine calls the standard library (\<open>re\<close>, \<open>urllib.parse.unquote\<close>,
  \<open>html.unescape\<close>, \<open>html.escape\<close>). Their algorithms are modelled below; the data they
  read from the interpreter is a parameter of the model:
  \<^item> \<open>html5\<close>: the table of named character references \<open>html.entities.html5\<close>
    (name without the ampersand, replacement text);
  \<^item> \<open>uni_word\<close>, \<open>uni_digit\<close>: for a code point from 128 on, whether the Unicode
    database of the interpreter makes \<open>\w\<close>, \<open>\d\<close> match it;
  \<^item> \<open>int_max_str_digits\<close>: the limit of \<open>int()\<close> on the number of decimal digits
    (\<open>sys.get_int_max_str_digits()\<close>, 4300 unless configured; 0 switches it off).
\<close>

record pyenv =
  html5 :: "(pystr \<times> pystr) list"
  uni_word :: "nat \<Rightarrow> bool"
  uni_digit :: "nat \<Rightarrow> bool"
  int_max_str_digits :: nat

datatype pyerror = ValueError | IndexError

section \<open>Regular expressions as the engine uses them\<close>

text \<open>
  Every pattern of the table is compiled with \<open>re.IGNORECASE | re.DOTALL\<close>. The patterns
  use literals, the classes \<open>.\<close>, \<open>[^>]\<close>, one bracket set, \<open>\w\<close>, \<open>\s\<close>, \<open>\d\<close>,
  sequence, alternation, greedy \<open>*\<close> and \<open>+\<close> and lazy \<open>*?\<close> on a single class, and \<open>\b\<close>.
\<close>

datatype cclass =
    Lit nat            \<comment> \<open>a literal character, matched ignoring case\<close>
  | AnyC               \<comment> \<open>\<open>.\<close> under DOTALL\<close>
  | NotC nat           \<comment> \<open>\<open>[^c]\<close>\<close>
  | OneOf "nat list"   \<comment> \<open>\<open>[...]\<close>\<close>
  | WordC              \<comment> \<open>\<open>\w\<close>\<close>
  | SpaceC             \<comment> \<open>\<open>\s\<close>\<close>
  | DigitC             \<comment> \<open>\<open>\d\<close>\<close>

datatype rx =
    REps
  | RChr cclass
  | RSeq rx rx
  | RAlt rx rx
  | RStar cclass       \<comment> \<open>greedy \<open>c*\<close>\<close>
  | RLazy cclass       \<comment> \<open>lazy \<open>c*?\<close>\<close>
  | RWordB             \<comment> \<open>\<open>\b\<close>\<close>

definition ascii_lower :: "nat \<Rightarrow> nat" where
  "ascii_lower c = (if 65 \<le> c \<and> c \<le> 90 then c + 32 else c)"

text \<open>
  A literal of the table (ASCII) matches, ignoring case, the characters with the same
  lower-case form; beyond ASCII these are U+0130 and U+0131 for \<open>i\<close>, U+017F for \<open>s\<close>
  and U+212A for \<open>k\<close>.
\<close>

definition lit_match :: "nat \<Rightarrow> nat \<Rightarrow> bool" where
  "lit_match p c =
     (ascii_lower c = ascii_lower p
      \<or> (ascii_lower p = 105 \<and> (c = 0x130 \<or> c = 0x131))
      \<or> (ascii_lower p = 115 \<and> c = 0x17F)
      \<or> (ascii_lower p = 107 \<and> c = 0x212A))"

definition ascii_alnum :: "nat \<Rightarrow> bool" where
  "ascii_alnum c = ((48 \<le> c \<and> c \<le> 57) \<or> (65 \<le> c \<and> c \<le> 90) \<or> (97 \<le> c \<and> c \<le> 122))"

definition is_word :: "pyenv \<Rightarrow> nat \<Rightarrow> bool" where
  "is_word E c = (if c < 128 then ascii_alnum c \<or> c = 95 else uni_word E c)"

definition is_digit :: "pyenv \<Rightarrow> nat \<Rightarrow> bool" where
  "is_digit E c = (if c < 128 then 48 \<le> c \<and> c \<le> 57 else uni_digit E c)"

definition is_space :: "nat \<Rightarrow> bool" where
  "is_space c =
     ((9 \<le> c \<and> c \<le> 13) \<or> (28 \<le> c \<and> c \<le> 32) \<or> c = 0x85 \<or> c = 0xA0 \<or> c = 0x1680
      \<or> (0x2000 \<le> c \<and> c \<le> 0x200A) \<or> c = 0x2028 \<or> c = 0x2029 \<or> c = 0x202F
      \<or> c = 0x205F \<or> c = 0x3000)"

fun cc_match :: "pyenv \<Rightarrow> cclass \<Rightarrow> nat \<Rightarrow> bool" where
  "cc_match E (Lit p) c = lit_match p c"
| "cc_match E AnyC c = True"
| "cc_match E (NotC p) c = (c \<noteq> p)"
| "cc_match E (OneOf ps) c = (c \<in> set ps)"
| "cc_match E WordC c = is_word E c"
| "cc_match E SpaceC c = is_space c"
| "cc_match E DigitC c = is_digit E c"

text \<open>
  The matcher of \<open>re\<close> backtracks: it tries the alternatives in a fixed order of priority
  and reports the first that lets the whole pattern match. \<open>rx_match\<close> lists, in that
  order, every way a pattern can match at the head of its input. A state is the character
  before the position (\<open>None\<close> at the start of the string; \<open>\b\<close> reads it) and the text
  from the position on.
\<close>

type_synonym mstate = "nat option \<times> pystr"

definition at_boundary :: "pyenv \<Rightarrow> mstate \<Rightarrow> bool" where
  "at_boundary E st =
     ((case fst st of None \<Rightarrow> False | Some p \<Rightarrow> is_word E p)
      \<noteq> (case snd st of [] \<Rightarrow> False | x # xs \<Rightarrow> is_word E x))"

fun rx_match :: "pyenv \<Rightarrow> rx \<Rightarrow> mstate \<Rightarrow> mstate list" where
  "rx_match E REps st = [st]"
| "rx_match E (RChr c) (p, []) = []"
| "rx_match E (RChr c) (p, x # xs) = (if cc_match E c x then [(Some x, xs)] else [])"
| "rx_match E (RSeq a b) st = concat (map (rx_match E b) (rx_match E a st))"
| "rx_match E (RAlt a b) st = rx_match E a st @ rx_match E b st"
| "rx_match E (RStar c) (p, []) = [(p, [])]"
| "rx_match E (RStar c) (p, x # xs) =
     (if cc_match E c x then rx_match E (RStar c) (Some x, xs) @ [(p, x # xs)]
      else [(p, x # xs)])"
| "rx_match E (RLazy c) (p, []) = [(p, [])]"
| "rx_match E (RLazy c) (p, x # xs) =
     (if cc_match E c x then (p, x # xs) # rx_match E (RLazy c) (Some x, xs)
      else [(p, x # xs)])"
| "rx_match E RWordB st = (if at_boundary E st then [st] else [])"

text \<open>\<open>pattern.search(data)\<close>: is there a match starting anywhere in the string.\<close>

fun rx_search_from :: "pyenv \<Rightarrow> rx \<Rightarrow> nat option \<Rightarrow> pystr \<Rightarrow> bool" where
  "rx_search_from E r p [] = (rx_match E r (p, []) \<noteq> [])"
| "rx_search_from E r p (x # xs) =
     (rx_match E r (p, x # xs) \<noteq> [] \<or> rx_search_from E r (Some x) xs)"

definition rx_search :: "pyenv \<Rightarrow> rx \<Rightarrow> pystr \<Rightarrow> bool" where
  "rx_search E r s = rx_search_from E r None s"

text \<open>
  \<open>pattern.sub('', data)\<close>: scanning from the left, the first match found at a position
  is cut out and the scan goes on behind it; where nothing matches the character is kept.
  A match of the empty string cuts nothing out and the character is kept; no pattern of the
  table has such a match (lemma \<open>table_match_consumes\<close>).
\<close>

function rx_sub_from :: "pyenv \<Rightarrow> rx \<Rightarrow> nat option \<Rightarrow> pystr \<Rightarrow> pystr" where
  "rx_sub_from E r p [] = []"
| "rx_sub_from E r p (x # xs) =
     (case rx_match E r (p, x # xs) of
        [] \<Rightarrow> x # rx_sub_from E r (Some x) xs
      | (p', rest) # alternatives \<Rightarrow>
          if length rest < length (x # xs) then rx_sub_from E r p' rest
          else x # rx_sub_from E r (Some x) xs)"
  by pat_completeness auto
termination
  by (relation "measure (\<lambda>(E, r, p, s). length s)") auto

definition rx_sub :: "pyenv \<Rightarrow> rx \<Rightarrow> pystr \<Rightarrow> pystr" where
  "rx_sub E r s = rx_sub_from E r None s"

text \<open>Whether the shape of a pattern lets it match the empty string.\<close>

fun nullable :: "rx \<Rightarrow> bool" where
  "nullable REps = True"
| "nullable (RChr c) = False"
| "nullable (RSeq a b) = (nullable a \<and> nullable b)"
| "nullable (RAlt a b) = (nullable a \<or> nullable b)"
| "nullable (RStar c) = True"
| "nullable (RLazy c) = True"
| "nullable RWordB = True"

section \<open>The pattern table\<close>

text \<open>
  \<open>DANGEROUS_PATTERNS\<close> maps a category to its patterns, in the order they are written;
  \<open>_compile_patterns\<close> compiles each one. An entry of the model is the pattern's source
  text (reported by \<open>validate_input\<close>) with its compiled form.
\<close>

fun lits :: "string \<Rightarrow> rx" where
  "lits [] = REps"
| "lits [c] = RChr (Lit (of_char c))"
| "lits (c # cs) = RSeq (RChr (Lit (of_char c))) (lits cs)"

fun seqs :: "rx list \<Rightarrow> rx" where
  "seqs [] = REps"
| "seqs [r] = r"
| "seqs (r # rs) = RSeq r (seqs rs)"

fun alts :: "rx list \<Rightarrow> rx" where
  "alts [] = REps"
| "alts [r] = r"
| "alts (r # rs) = RAlt r (alts rs)"

definition plus_of :: "cclass \<Rightarrow> rx" where
  "plus_of c = RSeq (RChr c) (RStar c)"

definition bsl :: string where
  "bsl = [CHR 0x5C]"

text \<open>\<open><name[^>]*>.*?</name>\<close>\<close>

definition tag_block :: "string \<Rightarrow> rx" where
  "tag_block name =
     seqs [lits (''<'' @ name), RStar (NotC 62), lits ''>'', RLazy AnyC,
           lits (''</'' @ name @ ''>'')]"

text \<open>\<open>(w1|w2|...)\s+\<close>\<close>

definition keyword_space :: "string list \<Rightarrow> rx" where
  "keyword_space ws = seqs [alts (map lits ws), plus_of SpaceC]"

text \<open>\<open>\d+\s*=\s*\d+\<close>\<close>

definition num_eq_num :: rx where
  "num_eq_num = seqs [plus_of DigitC, RStar SpaceC, lits ''='', RStar SpaceC, plus_of DigitC]"

definition word_bounded :: "string \<Rightarrow> rx" where
  "word_bounded w = seqs [RWordB, lits w, RWordB]"

definition xss_patterns :: "(string \<times> rx) list" where
  "xss_patterns =
    [(''<script[^>]*>.*?</script>'', tag_block ''script''),
     (''javascript:'', lits ''javascript:''),
     (''on'' @ bsl @ ''w+'' @ bsl @ ''s*='',
        seqs [lits ''on'', plus_of WordC, RStar SpaceC, lits ''='']),
     (''<iframe[^>]*>.*?</iframe>'', tag_block ''iframe''),
     (''<object[^>]*>.*?</object>'', tag_block ''object''),
     (''<embed[^>]*>.*?</embed>'', tag_block ''embed''),
     (''<link[^>]*>'', seqs [lits ''<link'', RStar (NotC 62), lits ''>'']),
     (''<meta[^>]*>'', seqs [lits ''<meta'', RStar (NotC 62), lits ''>'']),
     (''<style[^>]*>.*?</style>'', tag_block ''style''),
     (''expression'' @ bsl @ ''s*'' @ bsl @ ''('',
        seqs [lits ''expression'', RStar SpaceC, RChr (Lit 40)]),
     (''@import'', lits ''@import''),
     (''vbscript:'', lits ''vbscript:''),
     (''data:text/html'', lits ''data:text/html'')]"

definition sql_patterns :: "(string \<times> rx) list" where
  "sql_patterns =
    [(''(?i)(union|select|insert|update|delete|drop|create|alter|exec|execute)'' @ bsl @ ''s+'',
        keyword_space [''union'', ''select'', ''insert'', ''update'', ''delete'', ''drop'',
                       ''create'', ''alter'', ''exec'', ''execute'']),
     (''(?i)(or|and)'' @ bsl @ ''s+'' @ bsl @ ''d+'' @ bsl @ ''s*='' @ bsl @ ''s*'' @ bsl @ ''d+'',
        seqs [alts [lits ''or'', lits ''and''], plus_of SpaceC, num_eq_num]),
     (''(?i)('' @ bsl @ [CHR 0x27] @ ''|'' @ bsl @ [CHR 0x22] @ '')('' @ bsl @ ''s*;'' @ bsl
        @ ''s*|'' @ bsl @ ''s*--|'' @ bsl @ ''s*/'' @ bsl @ ''*)'',
        seqs [alts [RChr (Lit 39), RChr (Lit 34)],
              alts [seqs [RStar SpaceC, lits '';'', RStar SpaceC],
                    seqs [RStar SpaceC, lits ''--''],
                    seqs [RStar SpaceC, lits ''/*'']]]),
     (''(?i)('' @ bsl @ ''bor'' @ bsl @ ''b|'' @ bsl @ ''band'' @ bsl @ ''b)'' @ bsl @ ''s+(''
        @ bsl @ ''bfalse'' @ bsl @ ''b|'' @ bsl @ ''btrue'' @ bsl @ ''b|'' @ bsl @ ''d+'' @ bsl
        @ ''s*='' @ bsl @ ''s*'' @ bsl @ ''d+)'',
        seqs [alts [word_bounded ''or'', word_bounded ''and''], plus_of SpaceC,
              alts [word_bounded ''false'', word_bounded ''true'', num_eq_num]])]"

definition path_traversal_patterns :: "(string \<times> rx) list" where
  "path_traversal_patterns =
    [(bsl @ ''.'' @ bsl @ ''./+'', seqs [lits ''..'', plus_of (Lit 47)]),
     (bsl @ ''.'' @ bsl @ ''.'' @ bsl @ bsl @ ''+'', seqs [lits ''..'', plus_of (Lit 92)]),
     (''%2e%2e%2f'', lits ''%2e%2e%2f''),
     (''%2e%2e%5c'', lits ''%2e%2e%5c''),
     (''%252e%252e%252f'', lits ''%252e%252e%252f'')]"

definition command_injection_patterns :: "(string \<times> rx) list" where
  "command_injection_patterns =
    [(''[;&|`$(){}['' @ bsl @ '']<>]'',
        RChr (OneOf [59, 38, 124, 96, 36, 40, 41, 123, 125, 91, 93, 60, 62])),
     (''(?i)(rm|del|format|shutdown|reboot)'' @ bsl @ ''s+'',
        keyword_space [''rm'', ''del'', ''format'', ''shutdown'', ''reboot'']),
     (''(?i)(cat|type|more|less)'' @ bsl @ ''s+'',
        keyword_space [''cat'', ''type'', ''more'', ''less'']),
     (''(?i)(wget|curl|nc|netcat)'' @ bsl @ ''s+'',
        keyword_space [''wget'', ''curl'', ''nc'', ''netcat''])]"

definition compiled_patterns :: "(string \<times> (string \<times> rx) list) list" where
  "compiled_patterns =
    [(''xss'', xss_patterns),
     (''sql'', sql_patterns),
     (''path_traversal'', path_traversal_patterns),
     (''command_injection'', command_injection_patterns)]"

text \<open>\<open>SAFE_CHARS\<close>: the named sets of characters.\<close>

definition alphanumeric :: "nat list" where
  "alphanumeric = str ''abcdefghijklmnopqrstuvwxyzABCDEFGHIJKLMNOPQRSTUVWXYZ0123456789''"

definition basic_punctuation :: "nat list" where
  "basic_punctuation = str ''.,!?;:()[]{}'' @ [34, 39] @ str ''-_+=@#$%^&*~/|'' @ [92, 96]"

definition whitespace :: "nat list" where
  "whitespace = [32, 9, 10, 13]"

section \<open>The standard library functions the normalizer calls\<close>

subsection \<open>\<open>urllib.parse.unquote\<close>\<close>

text \<open>
  \<open>unquote(string)\<close> returns a string without \<open>%\<close> as it is. Otherwise every maximal run
  of ASCII characters is percent-decoded to bytes (\<open>unquote_to_bytes\<close>: \<open>%\<close> followed by
  two hexadecimal digits is one byte, any other \<open>%\<close> stays) and the bytes are decoded as
  UTF-8 with \<open>errors='replace'\<close>; the characters beyond ASCII between the runs stay.
  It raises nothing on a \<open>str\<close>.
\<close>

definition is_dec :: "nat \<Rightarrow> bool" where
  "is_dec c = (48 \<le> c \<and> c \<le> 57)"

definition is_hex :: "nat \<Rightarrow> bool" where
  "is_hex c = (is_dec c \<or> (65 \<le> c \<and> c \<le> 70) \<or> (97 \<le> c \<and> c \<le> 102))"

definition hex_val :: "nat \<Rightarrow> nat" where
  "hex_val c = (if is_dec c then c - 48 else if c \<le> 70 then c - 55 else c - 87)"

fun pct_bytes :: "nat list \<Rightarrow> nat list" where
  "pct_bytes (p # h # l # rest) =
     (if p = 37 \<and> is_hex h \<and> is_hex l then (16 * hex_val h + hex_val l) # pct_bytes rest
      else p # pct_bytes (h # l # rest))"
| "pct_bytes s = s"

definition is_cont :: "nat \<Rightarrow> bool" where
  "is_cont c = (0x80 \<le> c \<and> c \<le> 0xBF)"

text \<open>
  \<open>bytes.decode('utf-8', 'replace')\<close>: an invalid start byte, a start byte with the
  continuation bytes read so far when the next one is invalid, and a sequence cut off by
  the end of the data each become one U+FFFD.
\<close>

fun utf8_replace :: "nat list \<Rightarrow> pystr" where
  "utf8_replace [] = []"
| "utf8_replace (b # r) =
     (if b < 0x80 then b # utf8_replace r
      else if b < 0xC2 then 0xFFFD # utf8_replace r
      else if b < 0xE0 then
        (case r of
           [] \<Rightarrow> [0xFFFD]
         | c # r1 \<Rightarrow>
             if is_cont c then ((b mod 32) * 64 + c mod 64) # utf8_replace r1
             else 0xFFFD # utf8_replace r)
      else if b < 0xF0 then
        (case r of
           [] \<Rightarrow> [0xFFFD]
         | c # r1 \<Rightarrow>
             if \<not> is_cont c \<or> (b = 0xE0 \<and> c < 0xA0) \<or> (b = 0xED \<and> 0xA0 \<le> c)
             then 0xFFFD # utf8_replace r
             else (case r1 of
                     [] \<Rightarrow> [0xFFFD]
                   | d # r2 \<Rightarrow>
                       if \<not> is_cont d then 0xFFFD # utf8_replace r1
                       else ((b mod 16) * 4096 + (c mod 64) * 64 + d mod 64) # utf8_replace r2))
      else if b < 0xF5 then
        (case r of
           [] \<Rightarrow> [0xFFFD]
         | c # r1 \<Rightarrow>
             if \<not> is_cont c \<or> (b = 0xF0 \<and> c < 0x90) \<or> (b = 0xF4 \<and> 0x90 \<le> c)
             then 0xFFFD # utf8_replace r
             else (case r1 of
                     [] \<Rightarrow> [0xFFFD]
                   | d # r2 \<Rightarrow>
                       if \<not> is_cont d then 0xFFFD # utf8_replace r1
                       else (case r2 of
                               [] \<Rightarrow> [0xFFFD]
                             | e # r3 \<Rightarrow>
                                 if \<not> is_cont e then 0xFFFD # utf8_replace r2
                                 else ((b mod 8) * 262144 + (c mod 64) * 4096
                                       + (d mod 64) * 64 + e mod 64) # utf8_replace r3)))
      else 0xFFFD # utf8_replace r)"

function unquote_parts :: "pystr \<Rightarrow> pystr" where
  "unquote_parts [] = []"
| "unquote_parts (c # cs) =
     (if c < 128
      then utf8_replace (pct_bytes (c # takeWhile (\<lambda>x. x < 128) cs))
           @ unquote_parts (dropWhile (\<lambda>x. x < 128) cs)
      else c # unquote_parts cs)"
  by pat_completeness auto
termination
  by (relation "measure length") (auto simp: length_dropWhile_le less_Suc_eq_le)

definition unquote :: "pystr \<Rightarrow> pystr" where
  "unquote string = (if 37 \<in> set string then unquote_parts string else string)"

subsection \<open>\<open>html.unescape\<close>\<close>

text \<open>
  \<open>unescape(s)\<close> returns a string without \<open>&\<close> as it is. Otherwise it replaces, from
  the left, every match of
  \<open>&(#[0-9]+;?|#[xX][0-9a-fA-F]+;?|[^\t\n\f <&#;]{1,32};?)\<close> by what \<open>_replace_charref\<close>
  returns for the group behind the ampersand.
\<close>

definition name_char :: "nat \<Rightarrow> bool" where
  "name_char c = (c \<noteq> 9 \<and> c \<noteq> 10 \<and> c \<noteq> 12 \<and> c \<noteq> 32 \<and> c \<noteq> 60 \<and> c \<noteq> 38 \<and> c \<noteq> 35 \<and> c \<noteq> 59)"

definition with_semi :: "pystr \<Rightarrow> pystr \<Rightarrow> pystr" where
  "with_semi g cs = (case drop (length g) cs of [] \<Rightarrow> g | c # r \<Rightarrow> if c = 59 then g @ [59] else g)"

text \<open>The group matched behind an ampersand, if any; \<open>cs\<close> is the text behind it.\<close>

definition charref_match :: "pystr \<Rightarrow> pystr option" where
  "charref_match cs =
     (let decimal = (case cs of [] \<Rightarrow> [] | c # ds \<Rightarrow> if c = 35 then takeWhile is_dec ds else []);
          hexadecimal =
            (case cs of
               c # x # hs \<Rightarrow> if c = 35 \<and> (x = 120 \<or> x = 88) then takeWhile is_hex hs else []
             | _ \<Rightarrow> []);
          name = take 32 (takeWhile name_char cs)
      in if decimal \<noteq> [] then Some (with_semi (35 # decimal) cs)
         else if hexadecimal \<noteq> [] then Some (with_semi (take 2 cs @ hexadecimal) cs)
         else if name \<noteq> [] then Some (with_semi name cs)
         else None)"

definition rstrip_semi :: "pystr \<Rightarrow> pystr" where
  "rstrip_semi s = rev (dropWhile (\<lambda>c. c = 59) (rev s))"

text \<open>
  \<open>int(s)\<close> on a string of decimal digits: a \<open>ValueError\<close> when the string has more
  digits than the interpreter's limit. \<open>int(s, 16)\<close> has no limit.
\<close>

definition py_int :: "pyenv \<Rightarrow> pystr \<Rightarrow> pyerror + nat" where
  "py_int E ds =
     (if 0 < int_max_str_digits E \<and> int_max_str_digits E < length ds then Inl ValueError
      else Inr (foldl (\<lambda>n d. n * 10 + (d - 48)) 0 ds))"

definition py_int16 :: "pystr \<Rightarrow> nat" where
  "py_int16 hs = foldl (\<lambda>n d. n * 16 + hex_val d) 0 hs"

definition invalid_charrefs :: "(nat \<times> pystr) list" where
  "invalid_charrefs =
    [(0x00, [0xFFFD]), (0x0D, [0x0D]), (0x80, [0x20AC]), (0x81, [0x81]), (0x82, [0x201A]),
     (0x83, [0x192]), (0x84, [0x201E]), (0x85, [0x2026]), (0x86, [0x2020]), (0x87, [0x2021]),
     (0x88, [0x2C6]), (0x89, [0x2030]), (0x8A, [0x160]), (0x8B, [0x2039]), (0x8C, [0x152]),
     (0x8D, [0x8D]), (0x8E, [0x17D]), (0x8F, [0x8F]), (0x90, [0x90]), (0x91, [0x2018]),
     (0x92, [0x2019]), (0x93, [0x201C]), (0x94, [0x201D]), (0x95, [0x2022]), (0x96, [0x2013]),
     (0x97, [0x2014]), (0x98, [0x2DC]), (0x99, [0x2122]), (0x9A, [0x161]), (0x9B, [0x203A]),
     (0x9C, [0x153]), (0x9D, [0x9D]), (0x9E, [0x17E]), (0x9F, [0x178])]"

definition invalid_codepoint :: "nat \<Rightarrow> bool" where
  "invalid_codepoint n =
     ((1 \<le> n \<and> n \<le> 8) \<or> n = 11 \<or> (14 \<le> n \<and> n \<le> 31) \<or> (127 \<le> n \<and> n \<le> 159)
      \<or> (0xFDD0 \<le> n \<and> n \<le> 0xFDEF) \<or> 0xFFFE \<le> n mod 0x10000)"

definition numeric_charref :: "nat \<Rightarrow> pystr" where
  "numeric_charref num =
     (case map_of invalid_charrefs num of
        Some v \<Rightarrow> v
      | None \<Rightarrow>
          if (0xD800 \<le> num \<and> num \<le> 0xDFFF) \<or> 0x10FFFF < num then [0xFFFD]
          else if invalid_codepoint num then []
          else [num])"

text \<open>The longest prefix of the name, from \<open>len(s) - 1\<close> down to 2 characters, in the table.\<close>

fun longest_name :: "(pystr \<times> pystr) list \<Rightarrow> pystr \<Rightarrow> nat \<Rightarrow> pystr option" where
  "longest_name T s 0 = None"
| "longest_name T s (Suc n) =
     (if Suc n < 2 then None
      else case map_of T (take (Suc n) s) of
             Some v \<Rightarrow> Some (v @ drop (Suc n) s)
           | None \<Rightarrow> longest_name T s n)"

definition replace_charref :: "pyenv \<Rightarrow> pystr \<Rightarrow> pyerror + pystr" where
  "replace_charref E s =
     (case s of
        [] \<Rightarrow> Inl IndexError
      | c # r \<Rightarrow>
          if c = 35 then
            (case r of
               [] \<Rightarrow> Inl IndexError
             | x # h \<Rightarrow>
                 if x = 120 \<or> x = 88 then Inr (numeric_charref (py_int16 (rstrip_semi h)))
                 else (case py_int E (rstrip_semi r) of
                         Inl e \<Rightarrow> Inl e
                       | Inr num \<Rightarrow> Inr (numeric_charref num)))
          else
            (case map_of (html5 E) s of
               Some v \<Rightarrow> Inr v
             | None \<Rightarrow>
                 (case longest_name (html5 E) s (length s - 1) of
                    Some v \<Rightarrow> Inr v
                  | None \<Rightarrow> Inr (38 # s))))"

function charref_sub :: "pyenv \<Rightarrow> pystr \<Rightarrow> pyerror + pystr" where
  "charref_sub E [] = Inr []"
| "charref_sub E (c # cs) =
     (if c = 38 then
        (case charref_match cs of
           None \<Rightarrow> (case charref_sub E cs of Inl e \<Rightarrow> Inl e | Inr t \<Rightarrow> Inr (c # t))
         | Some g \<Rightarrow>
             (case replace_charref E g of
                Inl e \<Rightarrow> Inl e
              | Inr v \<Rightarrow>
                  (case charref_sub E (drop (length g) cs) of
                     Inl e \<Rightarrow> Inl e
                   | Inr t \<Rightarrow> Inr (v @ t))))
      else (case charref_sub E cs of Inl e \<Rightarrow> Inl e | Inr t \<Rightarrow> Inr (c # t)))"
  by pat_completeness auto
termination
  by (relation "measure (\<lambda>(E, s). length s)") auto

definition html_unescape :: "pyenv \<Rightarrow> pystr \<Rightarrow> pyerror + pystr" where
  "html_unescape E s = (if 38 \<in> set s then charref_sub E s else Inr s)"

subsection \<open>\<open>str.replace\<close>, \<open>html.escape\<close> and the UTF-8 round trip\<close>

text \<open>\<open>s.replace(old, new)\<close> for a single character \<open>old\<close>.\<close>

definition replace_char :: "nat \<Rightarrow> pystr \<Rightarrow> pystr \<Rightarrow> pystr" where
  "replace_char old new s = concat (map (\<lambda>c. if c = old then new else [c]) s)"

definition html_escape :: "pystr \<Rightarrow> pystr" where
  "html_escape s =
     (let s = replace_char 38 (str ''&amp;'') s;
          s = replace_char 60 (str ''&lt;'') s;
          s = replace_char 62 (str ''&gt;'') s;
          s = replace_char 34 (str ''&quot;'') s;
          s = replace_char 39 (str ''&#x27;'') s
      in s)"

text \<open>
  \<open>s.encode('utf-8', 'ignore').decode('utf-8')\<close>: the surrogate code points cannot be
  encoded and are dropped; every other character comes back.
\<close>

definition utf8_roundtrip :: "pystr \<Rightarrow> pystr" where
  "utf8_roundtrip s = filter (\<lambda>c. \<not> (0xD800 \<le> c \<and> c \<le> 0xDFFF)) s"

section \<open>The sanitization engine\<close>

subsection \<open>\<open>_normalize_encoding\<close>\<close>

text \<open>
  The loop of at most \<open>max_iterations = 5\<close> passes: it stops when the last pass changed
  nothing, and the \<open>try ... except: break\<close> around the decoder stops it when the decoder
  raises, with \<open>current_data\<close> as it was. \<open>percent_passes dec n prev cur\<close> runs the \<open>n\<close>
  iterations that are left, for a decoder \<open>dec\<close> that may raise.
\<close>

fun percent_passes :: "(pystr \<Rightarrow> pyerror + pystr) \<Rightarrow> nat \<Rightarrow> pystr \<Rightarrow> pystr \<Rightarrow> pystr" where
  "percent_passes dec 0 prev_data current_data = current_data"
| "percent_passes dec (Suc n) prev_data current_data =
     (if prev_data = current_data then current_data
      else (case dec current_data of
              Inl e \<Rightarrow> current_data
            | Inr decoded \<Rightarrow> percent_passes dec n current_data decoded))"

definition max_iterations :: nat where
  "max_iterations = 5"

definition normalize_encoding :: "pyenv \<Rightarrow> pystr \<Rightarrow> pyerror + pystr" where
  "normalize_encoding E data =
     (let current_data = percent_passes (\<lambda>s. Inr (unquote s)) max_iterations [] data
      in case html_unescape E current_data of
           Inl e \<Rightarrow> Inl e
         | Inr current_data \<Rightarrow> Inr (utf8_roundtrip current_data))"

subsection \<open>The context transforms\<close>

text \<open>\<open>for pattern in patterns: data = pattern.sub('', data)\<close>\<close>

definition remove_patterns :: "pyenv \<Rightarrow> (string \<times> rx) list \<Rightarrow> pystr \<Rightarrow> pystr" where
  "remove_patterns E patterns data = foldl (\<lambda>d pattern. rx_sub E (snd pattern) d) data patterns"

definition sanitize_html :: "pyenv \<Rightarrow> pystr \<Rightarrow> bool \<Rightarrow> pystr" where
  "sanitize_html E data strict =
     (let data = remove_patterns E xss_patterns data
      in if strict then html_escape data else html_escape data)"

definition sanitize_sql :: "pyenv \<Rightarrow> pystr \<Rightarrow> bool \<Rightarrow> pystr" where
  "sanitize_sql E data strict =
     (let data = remove_patterns E sql_patterns data
      in if strict then
           (let data = replace_char 39 [39, 39] data;
                data = replace_char 34 [34, 34] data;
                data = replace_char 92 [92, 92] data;
                data = replace_char 37 [92, 37] data;
                data = replace_char 95 [92, 95] data
            in data)
         else data)"

definition sanitize_path :: "pyenv \<Rightarrow> pystr \<Rightarrow> bool \<Rightarrow> pystr" where
  "sanitize_path E data strict =
     (let data = remove_patterns E path_traversal_patterns data
      in if strict then filter (\<lambda>c. c \<in> set (alphanumeric @ str ''.-_'')) data
         else data)"

definition sanitize_command :: "pyenv \<Rightarrow> pystr \<Rightarrow> bool \<Rightarrow> pystr" where
  "sanitize_command E data strict =
     (let data = remove_patterns E command_injection_patterns data
      in if strict then filter (\<lambda>c. c \<in> set (alphanumeric @ str '' .-_'')) data
         else data)"

definition sanitize_general :: "pyenv \<Rightarrow> pystr \<Rightarrow> bool \<Rightarrow> pystr" where
  "sanitize_general E data strict =
     foldl (\<lambda>d category. remove_patterns E (snd category) d) data compiled_patterns"

subsection \<open>\<open>_whitelist_filter\<close>\<close>

definition allowed :: "pystr \<Rightarrow> nat list" where
  "allowed ctx =
     (if ctx = str ''html'' then alphanumeric @ basic_punctuation @ whitespace
      else if ctx = str ''sql'' then alphanumeric @ whitespace @ str ''.,!?;:()[]{}'' @ [34, 39] @ str ''-_+=@''
      else if ctx = str ''path'' then alphanumeric @ str ''.-_/''
      else if ctx = str ''command'' then alphanumeric @ str '' .-_''
      else alphanumeric @ basic_punctuation @ whitespace)"

definition whitelist_filter :: "pystr \<Rightarrow> pystr \<Rightarrow> pystr" where
  "whitelist_filter data ctx = filter (\<lambda>c. c \<in> set (allowed ctx)) data"

subsection \<open>\<open>sanitize_input\<close>\<close>

definition sanitize_input :: "pyenv \<Rightarrow> pystr \<Rightarrow> pystr \<Rightarrow> bool \<Rightarrow> pyerror + pystr" where
  "sanitize_input E input_data ctx strict =
     (if input_data = [] then Inr []
      else (case normalize_encoding E input_data of
              Inl e \<Rightarrow> Inl e
            | Inr sanitized \<Rightarrow>
                (let sanitized =
                       (if ctx = str ''html'' then sanitize_html E sanitized strict
                        else if ctx = str ''sql'' then sanitize_sql E sanitized strict
                        else if ctx = str ''path'' then sanitize_path E sanitized strict
                        else if ctx = str ''command'' then sanitize_command E sanitized strict
                        else sanitize_general E sanitized strict);
                     sanitized = (if strict then whitelist_filter sanitized ctx else sanitized)
                 in Inr sanitized)))"

subsection \<open>\<open>validate_input\<close>\<close>

text \<open>
  The report. \<open>reduction_ratio\<close> is the exact quotient; Python rounds it to a float.
\<close>

record report =
  is_safe :: bool
  threats_found :: "string list"
  sanitized_data :: pystr
  original_length :: nat
  sanitized_length :: nat
  report_context :: pystr
  reduction_ratio :: rat

text \<open>
  The threats: for every category and every pattern of it, in the order of the table,
  \<open>category: pattern\<close> when the pattern is found in the data.
\<close>

definition threats_of :: "pyenv \<Rightarrow> pystr \<Rightarrow> string list" where
  "threats_of E data =
     concat (map (\<lambda>(category, patterns).
                    concat (map (\<lambda>(source, pattern).
                                   if rx_search E pattern data then [category @ '': '' @ source]
                                   else [])
                                patterns))
                 compiled_patterns)"

definition validate_input :: "pyenv \<Rightarrow> pystr \<Rightarrow> pystr \<Rightarrow> pyerror + report" where
  "validate_input E data ctx =
     (let threats = threats_of E data
      in case sanitize_input E data ctx True of
           Inl e \<Rightarrow> Inl e
         | Inr sanitized \<Rightarrow>
             Inr \<lparr>is_safe = (length threats = 0),
                  threats_found = threats,
                  sanitized_data = sanitized,
                  original_length = length data,
                  sanitized_length = length sanitized,
                  report_context = ctx,
                  reduction_ratio =
                    (if length data > 0
                     then (of_nat (length data) - of_nat (length sanitized)) / of_nat (length data)
                     else 0)\<rparr>)"

text \<open>
  The environment of the closed examples: the default limit of \<open>int()\<close>, three named
  references of the table, and a Unicode database in which no character from 128 on is a
  word or digit character. Except for the limit of \<open>int()\<close>, the examples do not read it:
  each one is an instance of a lemma that holds in every environment.
\<close>

definition ascii_env :: pyenv where
  "ascii_env = \<lparr>html5 = [(str ''amp;'', str ''&''), (str ''lt;'', str ''<''), (str ''gt;'', str ''>'')],
                uni_word = (\<lambda>c. False), uni_digit = (\<lambda>c. False),
                int_max_str_digits = 4300\<rparr>"

section \<open>Evaluating the engine\<close>

lemmas rx_eval = rx_sub_def rx_search_def plus_of_def lit_match_def ascii_lower_def
  tag_block_def keyword_space_def num_eq_num_def word_bounded_def is_space_def is_word_def
  is_digit_def ascii_alnum_def at_boundary_def str_def bsl_def

lemmas table_eval = remove_patterns_def compiled_patterns_def xss_patterns_def sql_patterns_def
  path_traversal_patterns_def command_injection_patterns_def

text \<open>
  A match never gives back text, and a pattern that cannot match the empty string
  consumes at least one character. This holds for every pattern of the table.
\<close>

lemma rx_match_length:
  "st' \<in> set (rx_match E r st) \<Longrightarrow>
     length (snd st') \<le> length (snd st)
     \<and> (\<not> nullable r \<longrightarrow> length (snd st') < length (snd st))"
proof (induction E r st arbitrary: st' rule: rx_match.induct)
  case (4 E a b st)
  then obtain m where m: "m \<in> set (rx_match E a st)" "st' \<in> set (rx_match E b m)"
    by auto
  from "4.IH"(1)[OF m(1)] "4.IH"(2)[OF m(1) m(2)] show ?case
    by auto
next
  case (5 E a b st)
  from "5.prems" consider "st' \<in> set (rx_match E a st)" | "st' \<in> set (rx_match E b st)"
    by auto
  then show ?case
  proof cases
    case 1
    from "5.IH"(1)[OF this] show ?thesis by auto
  next
    case 2
    from "5.IH"(2)[OF this] show ?thesis by auto
  qed
next
  case (7 E c p x xs)
  show ?case
  proof (cases "st' = (p, x # xs)")
    case True
    then show ?thesis by simp
  next
    case False
    then have "cc_match E c x" "st' \<in> set (rx_match E (RStar c) (Some x, xs))"
      using "7.prems" by (auto split: if_splits)
    from "7.IH"[OF this] show ?thesis by simp
  qed
next
  case (9 E c p x xs)
  show ?case
  proof (cases "st' = (p, x # xs)")
    case True
    then show ?thesis by simp
  next
    case False
    then have "cc_match E c x" "st' \<in> set (rx_match E (RLazy c) (Some x, xs))"
      using "9.prems" by (auto split: if_splits)
    from "9.IH"[OF this] show ?thesis by simp
  qed
qed (auto split: if_splits)

lemma table_not_nullable:
  "\<forall>category\<in>set compiled_patterns. \<forall>pattern\<in>set (snd category).
     \<not> nullable (snd pattern)"
  by (simp add: table_eval plus_of_def tag_block_def keyword_space_def num_eq_num_def
        word_bounded_def)

lemma table_match_consumes:
  assumes "category \<in> set compiled_patterns" "pattern \<in> set (snd category)"
    "(p', rest) \<in> set (rx_match E (snd pattern) (p, s))"
  shows "length rest < length s"
  using rx_match_length[OF assms(3)] table_not_nullable assms(1,2) by auto

text \<open>
  A text without \<open>%\<close>, without \<open>&\<close> and without a surrogate leaves the normalizer as it
  came: the first pass changes nothing, so the second iteration stops the loop.
\<close>

lemma unquote_plain: "37 \<notin> set s \<Longrightarrow> unquote s = s"
  by (simp add: unquote_def)

lemma percent_passes_plain:
  "s \<noteq> [] \<Longrightarrow> dec s = Inr s \<Longrightarrow> percent_passes dec max_iterations [] s = s"
  by (simp add: max_iterations_def eval_nat_numeral)

lemma normalize_plain:
  assumes "s \<noteq> []" "37 \<notin> set s" "38 \<notin> set s" "\<forall>c\<in>set s. c < 0xD800"
  shows "normalize_encoding E s = Inr s"
proof -
  have "percent_passes (\<lambda>t. Inr (unquote t)) max_iterations [] s = s"
    using assms(1,2) by (intro percent_passes_plain) (simp_all add: unquote_plain)
  moreover have "html_unescape E s = Inr s"
    using assms(3) by (simp add: html_unescape_def)
  moreover have "utf8_roundtrip s = s"
    using assms(4) by (auto simp: utf8_roundtrip_def filter_id_conv)
  ultimately show ?thesis
    by (simp add: normalize_encoding_def)
qed

lemma path_example:
  "sanitize_input E (str ''../../etc/passwd'') (str ''path'') True = Inr (str ''etcpasswd'')"
proof -
  have n: "normalize_encoding E (str ''../../etc/passwd'') = Inr (str ''../../etc/passwd'')"
    by (rule normalize_plain) (simp_all add: str_def)
  have r: "remove_patterns E path_traversal_patterns (str ''../../etc/passwd'') = str ''etc/passwd''"
    by (simp add: table_eval rx_eval)
  show ?thesis
    by (simp add: sanitize_input_def n sanitize_path_def r whitelist_filter_def allowed_def)
       (simp add: str_def alphanumeric_def)
qed

lemma ctx_distinct:
  "str ''path'' \<noteq> str ''html''" "str ''path'' \<noteq> str ''sql''" "str ''sql'' \<noteq> str ''html''"
  "str ''command'' \<noteq> str ''html''" "str ''command'' \<noteq> str ''sql''"
  "str ''command'' \<noteq> str ''path''"
  "str ''general'' \<noteq> str ''html''" "str ''general'' \<noteq> str ''sql''"
  "str ''general'' \<noteq> str ''path''" "str ''general'' \<noteq> str ''command''"
  by (simp_all add: str_def)

text \<open>Where a pattern matches at no position, \<open>sub\<close> returns its input.\<close>

lemma rx_sub_from_no_match:
  assumes "\<And>p t. set t \<subseteq> A \<Longrightarrow> rx_match E r (p, t) = []"
  shows "set s \<subseteq> A \<Longrightarrow> rx_sub_from E r p s = s"
  by (induction s arbitrary: p) (simp_all add: assms)

lemma remove_patterns_no_match:
  assumes "\<And>r p t. r \<in> snd ` set patterns \<Longrightarrow> set t \<subseteq> A \<Longrightarrow> rx_match E r (p, t) = []"
    and "set s \<subseteq> A"
  shows "remove_patterns E patterns s = s"
  using assms
proof (induction patterns arbitrary: s)
  case Nil
  then show ?case by (simp add: remove_patterns_def)
next
  case (Cons pat ps)
  have "rx_sub E (snd pat) s = s"
    unfolding rx_sub_def using Cons.prems by (intro rx_sub_from_no_match[where A = A]) auto
  then show ?case
    using Cons by (simp add: remove_patterns_def)
qed

section \<open>The whitelist of strict mode\<close>

text \<open>
  C1. Whatever \<open>sanitize_input\<close> returns in strict mode holds only characters of the set
  that \<open>_whitelist_filter\<close> computes for the context: for \<open>html\<close> and every context that
  is none of the four named ones the alphanumeric characters, the basic punctuation and
  the whitespace; for \<open>sql\<close> the alphanumeric characters, the whitespace and
  \<open>.,!?;:()[]{}"'-_+=@\<close>; for \<open>path\<close> the alphanumeric characters and \<open>.-_/\<close>; for
  \<open>command\<close> the alphanumeric characters and \<open> .-_\<close>. This holds for every input,
  every context and every interpreter environment.
\<close>

theorem strict_output_within_whitelist:
  "sanitize_input E x ctx True = Inr y \<Longrightarrow> set y \<subseteq> set (allowed ctx)"
  by (auto simp: sanitize_input_def whitelist_filter_def Let_def split: if_splits sum.splits)

theorem strict_output_within_whitelist_witness:
  "sanitize_input ascii_env (str ''../../etc/passwd'') (str ''path'') True = Inr (str ''etcpasswd'')
   \<and> set (str ''etcpasswd'') \<subseteq> set (allowed (str ''path''))"
  using strict_output_within_whitelist [OF path_example [of ascii_env]] path_example [of ascii_env]
  by simp

section \<open>Sanitizing twice\<close>

text \<open>
  The characters the strict \<open>path\<close> transform keeps are the alphanumeric ones and \<open>.-_\<close>.
  No pattern of the category \<open>path_traversal\<close> matches in a text of such characters: the
  first two need \<open>/\<close> or \<open>\\<close> behind the two dots, the other three start with \<open>%\<close>.
\<close>

lemma filename_chars_facts:
  "\<forall>c\<in>set (alphanumeric @ str ''.-_''). c < 0xD800 \<and> c \<noteq> 37 \<and> c \<noteq> 38 \<and> c \<noteq> 47 \<and> c \<noteq> 92"
  by (simp add: alphanumeric_def str_def)

lemma lit_match_same:
  "lit_match 47 c = (c = 47)" "lit_match 92 c = (c = 92)" "lit_match 37 c = (c = 37)"
  by (auto simp: lit_match_def ascii_lower_def)

lemma path_patterns_no_match:
  assumes "r \<in> snd ` set path_traversal_patterns" "set t \<subseteq> set (alphanumeric @ str ''.-_'')"
  shows "rx_match E r (p, t) = []"
proof -
  have no: "47 \<notin> set t" "92 \<notin> set t" "37 \<notin> set t"
    using assms(2) filename_chars_facts by auto
  have dots: "rx_match E (seqs [lits ''..'', plus_of (Lit c)]) (p, t) = []"
    if "\<And>x. lit_match c x \<Longrightarrow> x \<notin> set t" for c
  proof (cases t)
    case Nil
    then show ?thesis by (simp add: plus_of_def)
  next
    case t: (Cons a t1)
    show ?thesis
    proof (cases t1)
      case Nil
      then show ?thesis using t by (simp add: plus_of_def)
    next
      case t1: (Cons b t2)
      show ?thesis
      proof (cases t2)
        case Nil
        then show ?thesis using t t1 by (simp add: plus_of_def)
      next
        case (Cons d t3)
        then show ?thesis using t t1 that[of d] by (auto simp: plus_of_def)
      qed
    qed
  qed
  have pct: "rx_match E (RSeq (RChr (Lit 37)) r') (p, t) = []" for r'
    using no(3) by (cases t) (auto simp: lit_match_same)
  from assms(1) consider
      "r = seqs [lits ''..'', plus_of (Lit 47)]" | "r = seqs [lits ''..'', plus_of (Lit 92)]"
    | "r = lits ''%2e%2e%2f''" | "r = lits ''%2e%2e%5c''" | "r = lits ''%252e%252e%252f''"
    by (auto simp: path_traversal_patterns_def)
  then show ?thesis
  proof cases
    case 1
    then show ?thesis using dots[of 47] no by (simp add: lit_match_same del: seqs.simps lits.simps)
  next
    case 2
    then show ?thesis using dots[of 92] no by (simp add: lit_match_same del: seqs.simps lits.simps)
  next
    case 3
    then show ?thesis using pct by simp
  next
    case 4
    then show ?thesis using pct by simp
  next
    case 5
    then show ?thesis using pct by simp
  qed
qed

text \<open>The inputs on which a second strict pass changes the result of the first.\<close>

lemma sql_quote_once: "sanitize_input E [39] (str ''sql'') True = Inr [39, 39]"
proof -
  have n: "normalize_encoding E [39] = Inr [39]"
    by (rule normalize_plain) simp_all
  have r: "remove_patterns E sql_patterns [39] = [39]"
    by (simp add: table_eval rx_eval)
  show ?thesis
    by (simp add: sanitize_input_def n sanitize_sql_def r whitelist_filter_def allowed_def
          replace_char_def)
       (simp add: str_def alphanumeric_def whitespace_def)
qed

lemma sql_quote_twice: "sanitize_input E [39, 39] (str ''sql'') True = Inr [39, 39, 39, 39]"
proof -
  have n: "normalize_encoding E [39, 39] = Inr [39, 39]"
    by (rule normalize_plain) simp_all
  have r: "remove_patterns E sql_patterns [39, 39] = [39, 39]"
    by (simp add: table_eval rx_eval)
  show ?thesis
    by (simp add: sanitize_input_def n sanitize_sql_def r whitelist_filter_def allowed_def
          replace_char_def)
       (simp add: str_def alphanumeric_def whitespace_def)
qed

lemma javascript_kept:
  "remove_patterns E sql_patterns (str ''javascript:'') = str ''javascript:''"
  "remove_patterns E path_traversal_patterns (str ''javascript:'') = str ''javascript:''"
  "remove_patterns E command_injection_patterns (str ''javascript:'') = str ''javascript:''"
  by (simp_all add: table_eval rx_eval)

lemma javascript_nested:
  "remove_patterns E xss_patterns (str ''javajavascript:script:'') = str ''javascript:''"
  by (simp add: table_eval rx_eval)

lemma javascript_plain:
  "remove_patterns E xss_patterns (str ''javascript:'') = []"
  by (simp add: table_eval rx_eval)

lemma normalize_javascript:
  "normalize_encoding E (str ''javajavascript:script:'') = Inr (str ''javajavascript:script:'')"
  "normalize_encoding E (str ''javascript:'') = Inr (str ''javascript:'')"
  by (rule normalize_plain, simp_all add: str_def)+

lemma html_nested_once:
  "sanitize_input E (str ''javajavascript:script:'') (str ''html'') True = Inr (str ''javascript:'')"
  by (simp add: sanitize_input_def normalize_javascript sanitize_html_def javascript_nested
        whitelist_filter_def allowed_def)
     (simp add: str_def html_escape_def replace_char_def alphanumeric_def basic_punctuation_def)

lemma html_nested_twice:
  "sanitize_input E (str ''javascript:'') (str ''html'') True = Inr []"
  by (simp add: sanitize_input_def normalize_javascript sanitize_html_def javascript_plain
        whitelist_filter_def html_escape_def replace_char_def)

lemma general_nested_once:
  "sanitize_input E (str ''javajavascript:script:'') (str ''general'') True
     = Inr (str ''javascript:'')"
  by (simp add: sanitize_input_def normalize_javascript sanitize_general_def compiled_patterns_def
        javascript_nested javascript_kept whitelist_filter_def allowed_def ctx_distinct)
     (simp add: str_def alphanumeric_def basic_punctuation_def)

lemma general_nested_twice:
  "sanitize_input E (str ''javascript:'') (str ''general'') True = Inr []"
proof -
  have "remove_patterns E p [] = []" for p
    by (induction p) (simp_all add: remove_patterns_def rx_sub_def)
  then show ?thesis
    by (simp add: sanitize_input_def normalize_javascript sanitize_general_def
          compiled_patterns_def javascript_plain whitelist_filter_def ctx_distinct)
qed

lemma command_nested_once:
  "sanitize_input E (str ''rrm m -rf'') (str ''command'') True = Inr (str ''rm -rf'')"
proof -
  have n: "normalize_encoding E (str ''rrm m -rf'') = Inr (str ''rrm m -rf'')"
    by (rule normalize_plain) (simp_all add: str_def)
  have r: "remove_patterns E command_injection_patterns (str ''rrm m -rf'') = str ''rm -rf''"
    by (simp add: table_eval rx_eval)
  show ?thesis
    by (simp add: sanitize_input_def n sanitize_command_def r whitelist_filter_def allowed_def
          ctx_distinct)
       (simp add: str_def alphanumeric_def)
qed

lemma command_nested_twice:
  "sanitize_input E (str ''rm -rf'') (str ''command'') True = Inr (str ''-rf'')"
proof -
  have n: "normalize_encoding E (str ''rm -rf'') = Inr (str ''rm -rf'')"
    by (rule normalize_plain) (simp_all add: str_def)
  have r: "remove_patterns E command_injection_patterns (str ''rm -rf'') = str ''-rf''"
    by (simp add: table_eval rx_eval)
  show ?thesis
    by (simp add: sanitize_input_def n sanitize_command_def r whitelist_filter_def allowed_def
          ctx_distinct)
       (simp add: str_def alphanumeric_def)
qed

text \<open>
  In \<open>sql\<close> the strict step escapes the quote \<open>'\<close> as \<open>''\<close>, and a second pass escapes
  both again (lemmas \<open>sql_quote_once\<close>, \<open>sql_quote_twice\<close>): escaping is what the
  transform is written to do.
\<close>

lemma alert_normalized:
  "normalize_encoding E (str ''javajavascript:script:alert(1)'')
     = Inr (str ''javajavascript:script:alert(1)'')"
  "normalize_encoding E (str ''javascript:alert(1)'') = Inr (str ''javascript:alert(1)'')"
  by (rule normalize_plain, simp_all add: str_def)+

lemma alert_removed:
  "remove_patterns E xss_patterns (str ''javajavascript:script:alert(1)'')
     = str ''javascript:alert(1)''"
  "remove_patterns E xss_patterns (str ''javascript:alert(1)'') = str ''alert(1)''"
  by (simp_all add: table_eval rx_eval)

lemma alert_once:
  "sanitize_input E (str ''javajavascript:script:alert(1)'') (str ''html'') True
     = Inr (str ''javascript:alert(1)'')"
  by (simp add: sanitize_input_def alert_normalized sanitize_html_def alert_removed
        whitelist_filter_def allowed_def)
     (simp add: str_def html_escape_def replace_char_def alphanumeric_def basic_punctuation_def)

lemma alert_twice:
  "sanitize_input E (str ''javascript:alert(1)'') (str ''html'') True = Inr (str ''alert(1)'')"
  by (simp add: sanitize_input_def alert_normalized sanitize_html_def alert_removed
        whitelist_filter_def allowed_def)
     (simp add: str_def html_escape_def replace_char_def alphanumeric_def basic_punctuation_def)

lemma alert_threats:
  "threats_of E (str ''javascript:alert(1)'')
     = [''xss: javascript:'', ''command_injection: [;&|`$(){}['' @ bsl @ '']<>]'']"
  by (simp add: threats_of_def table_eval rx_eval)

text \<open>
  C2, at the input \<open>javajavascript:script:alert(1)\<close> in the \<open>html\<close> context: a second
  strict pass must return what the first returned. The first pass cuts the inner
  \<open>javascript:\<close> out and returns \<open>javascript:alert(1)\<close>, in which the scan of
  \<open>validate_input\<close> finds the \<open>xss\<close> pattern \<open>javascript:\<close>; the second pass returns
  \<open>alert(1)\<close>. Every pattern is removed in one pass of \<open>sub\<close>, so what the removal joins
  together stays. The same in \<open>general\<close> (\<open>javajavascript:script:\<close> gives \<open>javascript:\<close>,
  then the empty text) and in \<open>command\<close> (\<open>rrm m -rf\<close> gives \<open>rm -rf\<close>, then \<open>-rf\<close>).
\<close>

theorem nested_pattern_survives_strict_pass:
  "sanitize_input ascii_env (str ''javajavascript:script:alert(1)'') (str ''html'') True
     = Inr (str ''javascript:alert(1)'')
   \<and> sanitize_input ascii_env (str ''javascript:alert(1)'') (str ''html'') True
       = Inr (str ''alert(1)'')
   \<and> ''xss: javascript:'' \<in> set (threats_of ascii_env (str ''javascript:alert(1)''))
   \<and> sanitize_input ascii_env (str ''javajavascript:script:'') (str ''general'') True
       = Inr (str ''javascript:'')
   \<and> sanitize_input ascii_env (str ''javascript:'') (str ''general'') True = Inr []
   \<and> sanitize_input ascii_env (str ''rrm m -rf'') (str ''command'') True = Inr (str ''rm -rf'')
   \<and> sanitize_input ascii_env (str ''rm -rf'') (str ''command'') True = Inr (str ''-rf'')"
  by (simp only: alert_once alert_twice alert_threats general_nested_once general_nested_twice
        command_nested_once command_nested_twice)
     simp

text \<open>
  In the \<open>path\<close> context strict sanitization is idempotent. What the first pass returns
  has only alphanumeric characters and \<open>.-_\<close>; the normalizer, the removal of the
  traversal patterns and both filters leave such a text as it is. For every input on which
  the first pass returns, and every interpreter environment.
\<close>

theorem strict_path_idempotent:
  assumes "sanitize_input E x (str ''path'') True = Inr y"
  shows "sanitize_input E y (str ''path'') True = Inr y"
proof (cases "y = []")
  case True
  then show ?thesis by (simp add: sanitize_input_def)
next
  case False
  have sub: "set y \<subseteq> set (alphanumeric @ str ''.-_'')"
    using assms
    by (auto simp: sanitize_input_def sanitize_path_def whitelist_filter_def ctx_distinct
          split: if_splits sum.splits)
  have n: "normalize_encoding E y = Inr y"
    using False sub filename_chars_facts by (intro normalize_plain) auto
  have r: "remove_patterns E path_traversal_patterns y = y"
    using sub
    by (intro remove_patterns_no_match[where A = "set (alphanumeric @ str ''.-_'')"]
          path_patterns_no_match) auto
  have f: "filter (\<lambda>c. c \<in> set alphanumeric \<or> c \<in> set (str ''.-_'')) y = y"
    using sub by (auto simp: filter_id_conv)
  have "set (alphanumeric @ str ''.-_'') \<subseteq> set (allowed (str ''path''))"
    by (simp add: allowed_def) (auto simp: str_def)
  then have w: "whitelist_filter y (str ''path'') = y"
    using sub by (auto simp: whitelist_filter_def filter_id_conv)
  show ?thesis
    using False by (simp add: sanitize_input_def n sanitize_path_def r f w ctx_distinct)
qed

theorem strict_path_idempotent_witness:
  "sanitize_input ascii_env (str ''../../etc/passwd'') (str ''path'') True = Inr (str ''etcpasswd'')
   \<and> sanitize_input ascii_env (str ''etcpasswd'') (str ''path'') True = Inr (str ''etcpasswd'')"
  using strict_path_idempotent [OF path_example [of ascii_env]] path_example [of ascii_env]
  by simp

section \<open>The path context\<close>

text \<open>
  C3, as stated: \<open>sanitize("../../etc/passwd", "path", true)\<close> is \<open>etc/passwd\<close>. It is not:
  the strict step of \<open>_sanitize_path\<close> keeps "safe filename characters", the alphanumeric
  ones and \<open>.-_\<close>, and drops the \<open>/\<close> between \<open>etc\<close> and \<open>passwd\<close>.
\<close>

theorem traversal_example_keeps_no_slash:
  "sanitize_input ascii_env (str ''../../etc/passwd'') (str ''path'') True
     \<noteq> Inr (str ''etc/passwd'')"
  using path_example [of ascii_env] by (simp add: str_def)

text \<open>
  C3, amended: \<open>sanitize("../../etc/passwd", "path", true)\<close> returns \<open>etcpasswd\<close>: the two
  traversal segments are cut out and of \<open>etc/passwd\<close> the characters other than \<open>/\<close> are
  kept. In every interpreter environment.
\<close>

theorem traversal_example:
  "sanitize_input E (str ''../../etc/passwd'') (str ''path'') True = Inr (str ''etcpasswd'')"
  by (rule path_example)

theorem traversal_example_witness:
  "sanitize_input ascii_env (str ''../../etc/passwd'') (str ''path'') True
     = Inr (str ''etcpasswd'')"
  by (rule traversal_example)

text \<open>
  C9. In the \<open>path\<close> context and strict mode the result has no \<open>/\<close> (code point 47): the
  character filter of \<open>_sanitize_path\<close> runs before the whitelist filter and keeps only the
  alphanumeric characters and \<open>.-_\<close>, although the whitelist of \<open>path\<close> has \<open>/\<close>.
  For every input on which \<open>sanitize_input\<close> returns, and every environment.
\<close>

theorem strict_path_has_no_slash:
  "sanitize_input E x (str ''path'') True = Inr y \<Longrightarrow> 47 \<notin> set y"
  by (auto simp: sanitize_input_def sanitize_path_def whitelist_filter_def Let_def
        str_def alphanumeric_def split: if_splits sum.splits)

theorem strict_path_has_no_slash_witness:
  "sanitize_input ascii_env (str ''../../etc/passwd'') (str ''path'') True = Inr (str ''etcpasswd'')
   \<and> 47 \<in> set (allowed (str ''path'')) \<and> 47 \<notin> set (str ''etcpasswd'')"
  using strict_path_has_no_slash [OF path_example [of ascii_env]] path_example [of ascii_env]
  by (simp add: allowed_def ctx_distinct) (simp add: str_def)

section \<open>Contexts\<close>



text \<open>
  C7, as stated: in the \<open>html\<close> context \<open>sanitize\<close> returns the same for \<open>strict = false\<close>
  and \<open>strict = true\<close>. It does not: step 3 of \<open>sanitize_input\<close> runs the whitelist filter
  under \<open>if strict\<close> only. Of \<open>caf\<close> followed by U+00E9 the non-strict call returns all
  four characters and the strict call \<open>caf\<close>.
\<close>

lemma cafe_plain:
  "normalize_encoding E (str ''caf'' @ [233]) = Inr (str ''caf'' @ [233])"
  "remove_patterns E xss_patterns (str ''caf'' @ [233]) = str ''caf'' @ [233]"
  by (rule normalize_plain, simp_all add: str_def table_eval rx_eval)+

theorem html_strict_differs_from_permissive:
  "sanitize_input ascii_env (str ''caf'' @ [233]) (str ''html'') False
     \<noteq> sanitize_input ascii_env (str ''caf'' @ [233]) (str ''html'') True"
  by (simp add: sanitize_input_def cafe_plain sanitize_html_def whitelist_filter_def allowed_def)
     (simp add: str_def html_escape_def replace_char_def alphanumeric_def basic_punctuation_def
        whitespace_def)

text \<open>
  C7, amended: the transform \<open>_sanitize_html\<close> returns the same for \<open>strict = false\<close> and
  \<open>strict = true\<close> (it escapes everything in both branches); over the whole of
  \<open>sanitize_input\<close> the strict result is the non-strict result passed through the
  whitelist filter of \<open>html\<close>, which non-strict mode skips. For every input and every
  environment.
\<close>

theorem html_strict_is_filtered_permissive:
  "sanitize_html E d False = sanitize_html E d True
   \<and> sanitize_input E x (str ''html'') True
       = map_sum id (\<lambda>s. whitelist_filter s (str ''html''))
           (sanitize_input E x (str ''html'') False)"
  by (simp add: sanitize_html_def sanitize_input_def whitelist_filter_def Let_def
        split: sum.splits)

theorem html_strict_is_filtered_permissive_witness:
  "sanitize_input ascii_env (str ''caf'' @ [233]) (str ''html'') True
     = map_sum id (\<lambda>s. whitelist_filter s (str ''html''))
         (sanitize_input ascii_env (str ''caf'' @ [233]) (str ''html'') False)"
  using html_strict_is_filtered_permissive [of ascii_env "[]" "str ''caf'' @ [233]"] by simp

section \<open>The validation report\<close>

lemma threats_of_empty: "threats_of E [] = []"
  by (simp add: threats_of_def table_eval rx_eval)


text \<open>
  \<open>rx_search\<close> finds a pattern when it matches at some position of the text, the
  character before the position being the last one of the text before it.
\<close>

lemma rx_search_from_iff:
  "rx_search_from E r p s \<longleftrightarrow>
     (\<exists>before rest. s = before @ rest
        \<and> rx_match E r (if before = [] then p else Some (last before), rest) \<noteq> [])"
proof (induction s arbitrary: p)
  case Nil
  then show ?case by simp
next
  case (Cons x xs)
  show ?case
  proof
    assume "rx_search_from E r p (x # xs)"
    then consider "rx_match E r (p, x # xs) \<noteq> []" | "rx_search_from E r (Some x) xs"
      by auto
    then show "\<exists>before rest. x # xs = before @ rest
        \<and> rx_match E r (if before = [] then p else Some (last before), rest) \<noteq> []"
    proof cases
      case 1
      then show ?thesis by (intro exI[of _ "[]"] exI[of _ "x # xs"]) simp
    next
      case 2
      then obtain b t where
        "xs = b @ t" "rx_match E r (if b = [] then Some x else Some (last b), t) \<noteq> []"
        using Cons.IH by blast
      then show ?thesis by (intro exI[of _ "x # b"] exI[of _ t]) auto
    qed
  next
    assume "\<exists>before rest. x # xs = before @ rest
        \<and> rx_match E r (if before = [] then p else Some (last before), rest) \<noteq> []"
    then obtain b t where
      bt: "x # xs = b @ t" "rx_match E r (if b = [] then p else Some (last b), t) \<noteq> []"
      by blast
    show "rx_search_from E r p (x # xs)"
    proof (cases b)
      case Nil
      then have "t = x # xs" using bt(1) by simp
      then show ?thesis using bt(2) Nil by simp
    next
      case (Cons y b')
      then have "xs = b' @ t" "rx_match E r (if b' = [] then Some x else Some (last b'), t) \<noteq> []"
        using bt by auto
      then have "rx_search_from E r (Some x) xs"
        using Cons.IH by blast
      then show ?thesis by simp
    qed
  qed
qed






text \<open>
  C5. For the empty input \<open>sanitize_input\<close> returns the empty text, in every context and
  for either value of \<open>strict\<close>; \<open>validate_input\<close> returns a report (no division by
  zero), with \<open>reduction_ratio\<close> 0 and \<open>is_safe\<close> true. In every environment.
\<close>

theorem empty_input:
  "sanitize_input E [] ctx strict = Inr []
   \<and> (\<exists>r. validate_input E [] ctx = Inr r \<and> reduction_ratio r = 0 \<and> is_safe r)"
  by (simp add: sanitize_input_def validate_input_def threats_of_empty)

theorem empty_input_witness:
  "sanitize_input ascii_env [] (str ''general'') False = Inr []
   \<and> (\<exists>r. validate_input ascii_env [] (str ''general'') = Inr r
          \<and> reduction_ratio r = 0 \<and> is_safe r)"
  by (rule empty_input)

text \<open>
  C10. The verdict does not depend on the context: for every input and any two contexts
  the two calls of \<open>validate_input\<close> either both raise the same error or both return a
  report, and the two reports have the same \<open>is_safe\<close> and the same \<open>threats_found\<close>.
  The threats are searched in the raw input, with every pattern of every category.
\<close>

theorem verdict_independent_of_context:
  "map_sum id (\<lambda>r. (is_safe r, threats_found r)) (validate_input E x c1)
     = map_sum id (\<lambda>r. (is_safe r, threats_found r)) (validate_input E x c2)"
  by (simp add: validate_input_def sanitize_input_def Let_def split: sum.splits)

theorem verdict_independent_of_context_witness:
  "map_sum id (\<lambda>r. (is_safe r, threats_found r))
       (validate_input ascii_env (str ''<script>x</script>'') (str ''html''))
     = map_sum id (\<lambda>r. (is_safe r, threats_found r))
         (validate_input ascii_env (str ''<script>x</script>'') (str ''sql''))"
  by (rule verdict_independent_of_context)

section \<open>The normalizer\<close>

text \<open>
  The percent-decoding loop, for any decoder, also one that raises: it stops as soon as
  the last pass changed nothing; a pass that raises stops it with the text as it was; and
  what it returns is reached by at most \<open>n\<close> passes.
\<close>

lemma percent_passes_unchanged: "percent_passes dec n cur cur = cur"
  by (cases n) simp_all

lemma percent_passes_failure: "dec cur = Inl e \<Longrightarrow> percent_passes dec n prev cur = cur"
  by (cases n) simp_all

lemma percent_passes_bounded:
  "\<exists>k\<le>n. percent_passes dec n prev cur
            = ((\<lambda>s. case dec s of Inl e \<Rightarrow> s | Inr d \<Rightarrow> d) ^^ k) cur"
proof (induction n arbitrary: prev cur)
  case 0
  then show ?case by simp
next
  case (Suc n)
  let ?f = "\<lambda>s. case dec s of Inl e \<Rightarrow> s | Inr d \<Rightarrow> d"
  show ?case
  proof (cases "prev = cur \<or> (\<exists>e. dec cur = Inl e)")
    case True
    then have "percent_passes dec (Suc n) prev cur = (?f ^^ 0) cur"
      by auto
    then show ?thesis by blast
  next
    case False
    then obtain d where d: "dec cur = Inr d" "prev \<noteq> cur"
      by (cases "dec cur") auto
    from Suc.IH[of cur d] obtain k where k: "k \<le> n" "percent_passes dec n cur d = (?f ^^ k) d"
      by blast
    have "(?f ^^ Suc k) cur = (?f ^^ k) (?f cur)"
      by (simp only: funpow_Suc_right o_apply)
    also have "?f cur = d"
      using d by simp
    finally have "percent_passes dec (Suc n) prev cur = (?f ^^ Suc k) cur"
      using d k(2) by simp
    then show ?thesis using k(1) by (intro exI[of _ "Suc k"]) simp
  qed
qed

text \<open>
  A text that is percent-encoded seven times over is decoded five times; the normalizer
  returns it encoded twice over.
\<close>

lemma unquote_levels:
  "unquote (str ''%25252525252541'') = str ''%252525252541''"
  "unquote (str ''%252525252541'') = str ''%2525252541''"
  "unquote (str ''%2525252541'') = str ''%25252541''"
  "unquote (str ''%25252541'') = str ''%252541''"
  "unquote (str ''%252541'') = str ''%2541''"
  by (simp_all add: unquote_def str_def is_hex_def is_dec_def hex_val_def)

lemma seven_fold_encoded:
  "normalize_encoding E (str ''%25252525252541'') = Inr (str ''%2541'')"
proof -
  have d: "str ''%25252525252541'' \<noteq> []" "str ''%252525252541'' \<noteq> str ''%25252525252541''"
    "str ''%2525252541'' \<noteq> str ''%252525252541''" "str ''%25252541'' \<noteq> str ''%2525252541''"
    "str ''%252541'' \<noteq> str ''%25252541''"
    by (simp_all add: str_def)
  have "percent_passes (\<lambda>s. Inr (unquote s)) max_iterations [] (str ''%25252525252541'')
          = str ''%2541''"
    using d by (simp add: max_iterations_def eval_nat_numeral unquote_levels)
  moreover have "html_unescape E (str ''%2541'') = Inr (str ''%2541'')"
    by (simp add: html_unescape_def str_def)
  moreover have "utf8_roundtrip (str ''%2541'') = str ''%2541''"
    by (simp add: utf8_roundtrip_def str_def)
  ultimately show ?thesis by (simp add: normalize_encoding_def)
qed

text \<open>
  The \<open>try\<close> of the normalizer covers \<open>unquote\<close> only. \<open>html.unescape\<close> passes the digits
  of a decimal character reference to \<open>int()\<close>, which raises \<open>ValueError\<close> on more digits
  than the interpreter's limit (4300 unless configured otherwise).
\<close>

lemma rstrip_semi_id: "59 \<notin> set s \<Longrightarrow> rstrip_semi s = s"
  by (cases "rev s") (auto simp: rstrip_semi_def)

lemma long_reference_raises:
  assumes "int_max_str_digits E = 4300"
  shows "normalize_encoding E (38 # 35 # 49 # replicate 4300 49) = Inl ValueError"
proof -
  let ?digits = "49 # replicate 4300 (49::nat)"
  let ?s = "38 # 35 # ?digits"
  have p: "percent_passes (\<lambda>t. Inr (unquote t)) max_iterations [] ?s = ?s"
    by (intro percent_passes_plain) (simp_all add: unquote_def)
  have m: "charref_match (35 # ?digits) = Some (35 # ?digits)"
    by (simp add: charref_match_def with_semi_def takeWhile_replicate is_dec_def)
  have i: "py_int E (rstrip_semi ?digits) = Inl ValueError"
    using assms by (simp add: rstrip_semi_id py_int_def)
  have "replace_charref E (35 # ?digits) = Inl ValueError"
    using i by (simp add: replace_charref_def)
  then have "html_unescape E ?s = Inl ValueError"
    using m by (simp add: html_unescape_def)
  then show ?thesis
    using p by (simp add: normalize_encoding_def)
qed

text \<open>
  That \<open>ValueError\<close> is the only error of the engine: the group \<open>_replace_charref\<close> gets
  from the pattern is never too short to index, and on an interpreter with the limit of
  \<open>int()\<close> switched off \<open>sanitize_input\<close> and \<open>validate_input\<close> return on every input.
\<close>

lemma with_semi_facts:
  "h \<noteq> [] \<Longrightarrow>
     with_semi h cs \<noteq> [] \<and> hd (with_semi h cs) = hd h \<and> length h \<le> length (with_semi h cs)"
  by (cases h) (auto simp: with_semi_def split: list.splits)

lemma name_head:
  "take 32 (takeWhile name_char cs) \<noteq> [] \<Longrightarrow> hd (take 32 (takeWhile name_char cs)) \<noteq> 35"
  by (cases cs) (auto simp: name_char_def split: if_splits)

lemma charref_match_cases:
  assumes "charref_match cs = Some g"
  obtains h where "h \<noteq> []" "g = with_semi h cs" "hd h = 35 \<longrightarrow> 2 \<le> length h"
proof -
  let ?D = "case cs of [] \<Rightarrow> [] | c # ds \<Rightarrow> if c = 35 then takeWhile is_dec ds else []"
  let ?H = "case cs of c # x # hs \<Rightarrow> if c = 35 \<and> (x = 120 \<or> x = 88) then takeWhile is_hex hs else []
             | _ \<Rightarrow> []"
  let ?N = "take 32 (takeWhile name_char cs)"
  have eq: "charref_match cs =
      (if ?D \<noteq> [] then Some (with_semi (35 # ?D) cs)
       else if ?H \<noteq> [] then Some (with_semi (take 2 cs @ ?H) cs)
       else if ?N \<noteq> [] then Some (with_semi ?N cs) else None)"
    unfolding charref_match_def Let_def ..
  show thesis
  proof (cases "?D \<noteq> []")
    case True
    then have "g = with_semi (35 # ?D) cs" using assms eq by simp
    then show thesis using True that[of "35 # ?D"] by (simp add: Suc_le_eq)
  next
    case D: False
    show thesis
    proof (cases "?H \<noteq> []")
      case True
      then have g: "g = with_semi (take 2 cs @ ?H) cs" using assms eq D by simp
      have "2 \<le> length cs"
        using True by (cases cs; cases "tl cs") auto
      then have "2 \<le> length (take 2 cs @ ?H)" by simp
      then show thesis using that[of "take 2 cs @ ?H"] g True by force
    next
      case H: False
      have N: "?N \<noteq> []" "g = with_semi ?N cs"
        using assms eq D H by (simp_all split: if_splits)
      then show thesis using that[of ?N] name_head[of cs] by simp
    qed
  qed
qed

lemma charref_match_wf:
  assumes "charref_match cs = Some g"
  shows "g \<noteq> [] \<and> (hd g = 35 \<longrightarrow> 2 \<le> length g)"
proof -
  from assms obtain h where h: "h \<noteq> []" "g = with_semi h cs" "hd h = 35 \<longrightarrow> 2 \<le> length h"
    by (rule charref_match_cases)
  then show ?thesis using with_semi_facts[of h cs] by auto
qed


lemma replace_charref_total:
  assumes "g \<noteq> []" "hd g = 35 \<longrightarrow> 2 \<le> length g" "int_max_str_digits E = 0"
  shows "\<exists>v. replace_charref E g = Inr v"
proof -
  obtain c r where g: "g = c # r"
    using assms(1) by (cases g) auto
  show ?thesis
  proof (cases "c = 35")
    case False
    then show ?thesis
      unfolding g replace_charref_def by (simp split: option.splits)
  next
    case True
    then obtain x h where r: "r = x # h"
      using assms(2) g by (cases r) auto
    obtain n where n: "py_int E (rstrip_semi r) = Inr n"
      using assms(3) by (simp add: py_int_def)
    show ?thesis
      unfolding g replace_charref_def using True r n by simp
  qed
qed


lemma charref_sub_total:
  "int_max_str_digits E = 0 \<Longrightarrow> \<exists>t. charref_sub E s = Inr t"
proof (induction E s rule: charref_sub.induct)
  case (1 E)
  then show ?case by simp
next
  case (2 E c cs)
  show ?case
  proof (cases "c = 38")
    case False
    from "2.IH"(3)[OF False "2.prems"] obtain t where "charref_sub E cs = Inr t" by blast
    then show ?thesis using False by simp
  next
    case True
    show ?thesis
    proof (cases "charref_match cs")
      case None
      from "2.IH"(1)[OF True None "2.prems"] obtain t where "charref_sub E cs = Inr t" by blast
      then show ?thesis using True None by simp
    next
      case (Some g)
      have "g \<noteq> []" "hd g = 35 \<longrightarrow> 2 \<le> length g"
        using charref_match_wf[OF Some] by simp_all
      from replace_charref_total[OF this "2.prems"]
      obtain v where v: "replace_charref E g = Inr v" by blast
      from "2.IH"(2)[OF True Some v "2.prems"]
      obtain t where "charref_sub E (drop (length g) cs) = Inr t" by blast
      then show ?thesis using True Some v by simp
    qed
  qed
qed


lemma normalize_total_without_limit:
  assumes "int_max_str_digits E = 0"
  shows "\<exists>d. normalize_encoding E s = Inr d"
proof -
  have "\<exists>t. html_unescape E u = Inr t" for u
    using charref_sub_total[OF assms, of u] by (cases "38 \<in> set u") (simp_all add: html_unescape_def)
  then obtain t where
    "html_unescape E (percent_passes (\<lambda>s. Inr (unquote s)) max_iterations [] s) = Inr t"
    by blast
  then show ?thesis
    by (simp add: normalize_encoding_def)
qed

lemma sanitize_total_without_limit:
  assumes "int_max_str_digits E = 0"
  shows "\<exists>y. sanitize_input E x ctx strict = Inr y"
proof -
  obtain d where "normalize_encoding E x = Inr d"
    using normalize_total_without_limit[OF assms] by blast
  then show ?thesis
    by (simp add: sanitize_input_def Let_def)
qed

lemma validate_total_without_limit:
  assumes "int_max_str_digits E = 0"
  shows "\<exists>r. validate_input E x ctx = Inr r"
proof -
  obtain y where "sanitize_input E x ctx True = Inr y"
    using sanitize_total_without_limit[OF assms] by blast
  then show ?thesis
    by (simp add: validate_input_def Let_def)
qed

text \<open>
  C6, at the input \<open>&#\<close> followed by 4301 digits \<open>1\<close> (code point 49): no pass of the
  percent-decoding loop changes the text, and the character reference in it makes
  \<open>html.unescape\<close> raise \<open>ValueError\<close>. The normalizer does not catch it: a decoding
  failure escapes to the caller and no output is produced.
\<close>

theorem normalizer_raises_on_long_reference:
  "normalize_encoding ascii_env (str ''&#'' @ replicate 4301 49) = Inl ValueError"
proof -
  have "replicate 4301 49 = 49 # replicate 4300 (49::nat)"
    by (simp add: replicate_Suc [symmetric] del: replicate_Suc)
  then have "str ''&#'' @ replicate 4301 49 = 38 # 35 # 49 # replicate 4300 49"
    by (simp add: str_def)
  then show ?thesis
    by (simp only: long_reference_raises [of ascii_env, simplified ascii_env_def, simplified]
          ascii_env_def)
qed

end
